theory Spec2Isabelle
  imports Main
begin

section \<open>Go values\<close>

text \<open>
  A Go pointer is either nil or points to a value: \<open>None\<close> is nil. A Go slice is
  either the nil slice or a (possibly empty) sequence of elements; the two differ when
  the slice is encoded as JSON. A Go \<open>error\<close> is an opaque value carrying a message.
  Strings are byte sequences, as in Go.
\<close>

type_synonym 'a ptr = "'a option"

datatype 'a slice = NilSlice | Slice "'a list"

fun elems :: "'a slice \<Rightarrow> 'a list" where
  "elems NilSlice = []"
| "elems (Slice xs) = xs"

definition len :: "'a slice \<Rightarrow> nat" where
  "len s = length (elems s)"

datatype error = Error string

section \<open>The records of the YouTube client library that the program reads\<close>

record youtube_ChannelContentDetailsRelatedPlaylists =
  Uploads :: string

record youtube_ChannelContentDetails =
  RelatedPlaylists :: "youtube_ChannelContentDetailsRelatedPlaylists ptr"

record youtube_Channel =
  channel_Id :: string
  channel_ContentDetails :: "youtube_ChannelContentDetails ptr"

record youtube_PlaylistItemContentDetails =
  VideoId :: string

record youtube_PlaylistItem =
  item_ContentDetails :: "youtube_PlaylistItemContentDetails ptr"

record youtube_Video =
  video_Id :: string

section \<open>The snapshot\<close>

text \<open>
  \<^verbatim>\<open>type State struct { Channel *youtube.Channel; LiveVideo *youtube.Video; Videos []*youtube.Video }\<close>
  The global \<^verbatim>\<open>state = new(State)\<close> starts with every field zero.
\<close>

record State =
  Channel :: "youtube_Channel ptr"
  LiveVideo :: "youtube_Video ptr"
  Videos :: "youtube_Video ptr slice"

definition new_State :: State where
  "new_State = \<lparr>Channel = None, LiveVideo = None, Videos = NilSlice\<rparr>"

section \<open>The outside world\<close>

text \<open>
  The program talks to the YouTube API, to the channel's live page over HTTP, and to the
  HTML and selector libraries. What they answer is not decided by the program, so each
  of them is a field of the record \<open>upstream\<close>: a function from the request to either
  an error (\<open>Inl\<close>) or the answer (\<open>Inr\<close>).
\<close>

record html_Attribute =
  Key :: string
  Val :: string

record html_Node =
  Attr :: "html_Attribute list"

record http_Cookie =
  cookie_Name :: string
  cookie_Value :: string
  cookie_Secure :: bool

record http_Request =
  req_Method :: string
  req_URL :: string
  req_Cookies :: "http_Cookie list"

datatype html_Document = Document string

datatype cascadia_Selector = Selector string

record upstream =
  Channels_List :: "string \<Rightarrow> error + youtube_Channel ptr slice"
  PlaylistItems_List :: "string \<Rightarrow> error + youtube_PlaylistItem ptr slice"
  Videos_List :: "string list \<Rightarrow> error + youtube_Video ptr slice"
  http_NewRequest :: "string \<Rightarrow> string \<Rightarrow> error + http_Request"
  http_Do :: "http_Request \<Rightarrow> error + string"
  html_Parse :: "string \<Rightarrow> error + html_Document"
  cascadia_Parse :: "string \<Rightarrow> error + cascadia_Selector"
  cascadia_Query :: "html_Document \<Rightarrow> cascadia_Selector \<Rightarrow> html_Node ptr"

section \<open>The pattern of the live video's address\<close>

text \<open>
  \<^verbatim>\<open>re = regexp.MustCompile(`(?i)https://www\.youtube\.com/watch\?v=(.+)`)\<close>

  The pattern is a literal text, matched without regard to case, followed by one group
  \<^verbatim>\<open>(.+)\<close>. It is not anchored: \<^verbatim>\<open>FindStringSubmatch\<close> returns the leftmost match.
  In Go's regexp a dot matches every character but the line feed, and \<^verbatim>\<open>+\<close> is
  greedy, so the group is the longest run of bytes other than the line feed. Under
  \<^verbatim>\<open>(?i)\<close> a letter of the pattern matches its lower and upper case forms, and
  \<^verbatim>\<open>s\<close> and \<^verbatim>\<open>k\<close> also match the long s (U+017F, bytes C5 BF) and the Kelvin sign
  (U+212A, bytes E2 84 AA), which fold to them.
\<close>

definition re_literal :: string where
  "re_literal = ''https://www.youtube.com/watch?v=''"

definition line_feed :: char where
  "line_feed = CHR 0x0A"

definition is_lower :: "char \<Rightarrow> bool" where
  "is_lower c = (of_char c \<ge> (97::nat) \<and> of_char c \<le> (122::nat))"

definition is_upper :: "char \<Rightarrow> bool" where
  "is_upper c = (of_char c \<ge> (65::nat) \<and> of_char c \<le> (90::nat))"

definition to_upper :: "char \<Rightarrow> char" where
  "to_upper c = (if is_lower c then char_of (of_char c - (32::nat)) else c)"

definition to_lower :: "char \<Rightarrow> char" where
  "to_lower c = (if is_upper c then char_of (of_char c + (32::nat)) else c)"

text \<open>
  One character of the pattern against the front of the input: the rest of the input
  when it matches.
\<close>

fun match_fold :: "char \<Rightarrow> string \<Rightarrow> string option" where
  "match_fold p [] = None"
| "match_fold p (c # cs) =
     (if c = to_lower p \<or> c = to_upper p then Some cs
      else if to_lower p = CHR ''s'' \<and> c = CHR 0xC5 then
        (case cs of d # ds \<Rightarrow> if d = CHR 0xBF then Some ds else None | [] \<Rightarrow> None)
      else if to_lower p = CHR ''k'' \<and> c = CHR 0xE2 then
        (case cs of d # e # es \<Rightarrow> if d = CHR 0x84 \<and> e = CHR 0xAA then Some es else None
         | _ \<Rightarrow> None)
      else None)"

fun match_literal :: "string \<Rightarrow> string \<Rightarrow> string option" where
  "match_literal [] s = Some s"
| "match_literal (p # ps) s =
     (case match_fold p s of None \<Rightarrow> None | Some rest \<Rightarrow> match_literal ps rest)"

text \<open>
  The match that starts at the front of \<open>s\<close>, if there is one: the whole matched text
  and the group.
\<close>

definition match_here :: "string \<Rightarrow> string list" where
  "match_here s =
     (case match_literal re_literal s of
        None \<Rightarrow> []
      | Some rest \<Rightarrow>
          (let g = takeWhile (\<lambda>c. c \<noteq> line_feed) rest in
           if g = [] then []
           else [take (length s - length rest) s @ g, g]))"

text \<open>
  \<^verbatim>\<open>re.FindStringSubmatch\<close>: the empty (nil) slice when nothing matches, else the
  leftmost match and its group.
\<close>

fun FindStringSubmatch :: "string \<Rightarrow> string list" where
  "FindStringSubmatch [] = []"
| "FindStringSubmatch (c # cs) =
     (case match_here (c # cs) of [] \<Rightarrow> FindStringSubmatch cs | sm \<Rightarrow> sm)"

section \<open>The live-video resolver\<close>

text \<open>
  The loop over the attributes of the canonical link (lines 77 to 83): the first
  \<^verbatim>\<open>href\<close> whose value matches decides; an \<^verbatim>\<open>href\<close> that does not match is passed
  over.
\<close>

fun scan_attrs :: "html_Attribute list \<Rightarrow> string option" where
  "scan_attrs [] = None"
| "scan_attrs (v # vs) =
     (if Key v = ''href'' then
        (let sm = FindStringSubmatch (Val v) in
         if length sm > 0 then Some (sm ! 1) else scan_attrs vs)
      else scan_attrs vs)"

definition live_url :: "string \<Rightarrow> string" where
  "live_url channelId = ''https://www.youtube.com/channel/'' @ channelId @ ''/live''"

definition consent_cookie :: http_Cookie where
  "consent_cookie = \<lparr>cookie_Name = ''CONSENT'', cookie_Value = ''YES+42'', cookie_Secure = True\<rparr>"

definition AddCookie :: "http_Cookie \<Rightarrow> http_Request \<Rightarrow> http_Request" where
  "AddCookie c req = req\<lparr>req_Cookies := req_Cookies req @ [c]\<rparr>"

definition fetchLiveVideoId :: "upstream \<Rightarrow> string \<Rightarrow> error + string" where
  "fetchLiveVideoId up channelId =
     (case http_NewRequest up ''GET'' (live_url channelId) of
        Inl err \<Rightarrow> Inl err
      | Inr req0 \<Rightarrow>
     (let req = AddCookie consent_cookie req0 in
      case http_Do up req of
        Inl err \<Rightarrow> Inl err
      | Inr body \<Rightarrow>
     (case html_Parse up body of
        Inl err \<Rightarrow> Inl err
      | Inr doc \<Rightarrow>
     (case cascadia_Parse up ''link[rel='canonical']'' of
        Inl err \<Rightarrow> Inl err
      | Inr sel \<Rightarrow>
     (case cascadia_Query up doc sel of
        None \<Rightarrow> Inr ''''
      | Some node \<Rightarrow>
          (case scan_attrs (Attr node) of
             Some videoId \<Rightarrow> Inr videoId
           | None \<Rightarrow> Inr ''''))))))"

section \<open>The metadata-fetch client\<close>

definition fetchChannel :: "upstream \<Rightarrow> string \<Rightarrow> error + youtube_Channel ptr" where
  "fetchChannel src channelId =
     (case Channels_List src channelId of
        Inl err \<Rightarrow> Inl err
      | Inr items \<Rightarrow> if len items > 0 then Inr (elems items ! 0) else Inr None)"

definition fetchPlaylistItems :: "upstream \<Rightarrow> string \<Rightarrow> error + youtube_PlaylistItem ptr slice" where
  "fetchPlaylistItems src playlistId =
     (case PlaylistItems_List src playlistId of
        Inl err \<Rightarrow> Inl err
      | Inr items \<Rightarrow> Inr items)"

definition fetchVideos :: "upstream \<Rightarrow> string list \<Rightarrow> error + youtube_Video ptr slice" where
  "fetchVideos src videoIds =
     (case Videos_List src videoIds of
        Inl err \<Rightarrow> Inl err
      | Inr items \<Rightarrow> Inr items)"

section \<open>The refresh orchestrator\<close>

text \<open>
  \<^verbatim>\<open>refresh\<close> returns nil or an error, or it panics on a nil pointer. Beside the
  outcome the model returns the snapshot as the call leaves it and the fetches it made,
  in order.
\<close>

datatype outcome = Success | Failure error | Panic

datatype call =
    FetchChannel string
  | FetchLiveVideoId string
  | FetchPlaylistItems string
  | FetchVideos "string list"

text \<open>\<^verbatim>\<open>channel.ContentDetails.RelatedPlaylists.Uploads\<close>: nil on the way is a panic.\<close>

definition channel_uploads :: "youtube_Channel \<Rightarrow> string option" where
  "channel_uploads channel =
     (case channel_ContentDetails channel of
        None \<Rightarrow> None
      | Some cd \<Rightarrow>
          (case RelatedPlaylists cd of None \<Rightarrow> None | Some rp \<Rightarrow> Some (Uploads rp)))"

text \<open>
  The loop of lines 155 to 157, appending \<^verbatim>\<open>v.ContentDetails.VideoId\<close> for each
  playlist item: \<open>None\<close> when an item or its content details is nil (a panic).
\<close>

fun append_video_ids :: "string list \<Rightarrow> youtube_PlaylistItem ptr list \<Rightarrow> string list option" where
  "append_video_ids videoIds [] = Some videoIds"
| "append_video_ids videoIds (v # vs) =
     (case v of
        None \<Rightarrow> None
      | Some item \<Rightarrow>
          (case item_ContentDetails item of
             None \<Rightarrow> None
           | Some cd \<Rightarrow> append_video_ids (videoIds @ [VideoId cd]) vs))"

definition refresh :: "upstream \<Rightarrow> string \<Rightarrow> State \<Rightarrow> outcome \<times> State \<times> call list" where
  "refresh src channelId state =
     (let t1 = [FetchChannel channelId] in
      case fetchChannel src channelId of
        Inl err \<Rightarrow> (Failure err, state, t1)
      | Inr None \<Rightarrow> (Panic, state, t1)
      | Inr (Some channel) \<Rightarrow>
     (let t2 = t1 @ [FetchLiveVideoId (channel_Id channel)] in
      case fetchLiveVideoId src (channel_Id channel) of
        Inl err \<Rightarrow> (Failure err, state, t2)
      | Inr liveVideoId \<Rightarrow>
     (case channel_uploads channel of
        None \<Rightarrow> (Panic, state, t2)
      | Some uploads \<Rightarrow>
     (let t3 = t2 @ [FetchPlaylistItems uploads] in
      case fetchPlaylistItems src uploads of
        Inl err \<Rightarrow> (Failure err, state, t3)
      | Inr playlistItems \<Rightarrow>
     (case append_video_ids (if liveVideoId \<noteq> '''' then [liveVideoId] else [])
             (elems playlistItems) of
        None \<Rightarrow> (Panic, state, t3)
      | Some videoIds \<Rightarrow>
     (let state1 = state\<lparr>Channel := Some channel\<rparr> in
      if length videoIds = 0 then
        (Success, state1\<lparr>Videos := Slice [], LiveVideo := None\<rparr>, t3)
      else
     (let t4 = t3 @ [FetchVideos videoIds] in
      case fetchVideos src videoIds of
        Inl err \<Rightarrow> (Failure err, state1, t4)
      | Inr videos \<Rightarrow>
          (if len videos > 0 then
             (case elems videos ! 0 of
                None \<Rightarrow> (Panic, state1, t4)
              | Some v0 \<Rightarrow>
                  if video_Id v0 = liveVideoId then
                    (Success, state1\<lparr>LiveVideo := Some v0, Videos := Slice (drop 1 (elems videos))\<rparr>, t4)
                  else (Success, state1\<lparr>LiveVideo := None, Videos := videos\<rparr>, t4))
           else (Success, state1\<lparr>LiveVideo := None, Videos := videos\<rparr>, t4)))))))))"

section \<open>The HTTP snapshot server\<close>


















section \<open>Example values\<close>

text \<open>
  An upstream that gives the same answer to every request of a kind, and small records,
  for the concrete runs below.
\<close>

definition const_upstream ::
  "(error + youtube_Channel ptr slice) \<Rightarrow> html_Node ptr \<Rightarrow>
   (error + youtube_PlaylistItem ptr slice) \<Rightarrow> (error + youtube_Video ptr slice) \<Rightarrow> upstream" where
  "const_upstream ch node pl vs =
     \<lparr>Channels_List = (\<lambda>_. ch), PlaylistItems_List = (\<lambda>_. pl), Videos_List = (\<lambda>_. vs),
      http_NewRequest = (\<lambda>m u. Inr \<lparr>req_Method = m, req_URL = u, req_Cookies = []\<rparr>),
      http_Do = (\<lambda>_. Inr []),
      html_Parse = (\<lambda>b. Inr (Document b)),
      cascadia_Parse = (\<lambda>s. Inr (Selector s)),
      cascadia_Query = (\<lambda>_ _. node)\<rparr>"

definition a_channel :: "youtube_Channel" where
  "a_channel = \<lparr>channel_Id = ''UC1'',
     channel_ContentDetails = Some \<lparr>RelatedPlaylists = Some \<lparr>Uploads = ''UU1''\<rparr>\<rparr>\<rparr>"

definition an_item :: "string \<Rightarrow> youtube_PlaylistItem ptr" where
  "an_item vid = Some \<lparr>item_ContentDetails = Some \<lparr>VideoId = vid\<rparr>\<rparr>"

definition a_video :: "string \<Rightarrow> youtube_Video ptr" where
  "a_video vid = Some \<lparr>video_Id = vid\<rparr>"

definition canonical_link :: "string \<Rightarrow> html_Node ptr" where
  "canonical_link url =
     Some \<lparr>Attr = [\<lparr>Key = ''rel'', Val = ''canonical''\<rparr>, \<lparr>Key = ''href'', Val = url\<rparr>]\<rparr>"

text \<open>A channel that is live with video X and has uploaded A and B.\<close>

definition live_upstream :: "(error + youtube_Video ptr slice) \<Rightarrow> upstream" where
  "live_upstream vs =
     const_upstream (Inr (Slice [Some a_channel]))
       (canonical_link ''https://www.youtube.com/watch?v=X'')
       (Inr (Slice [an_item ''A'', an_item ''B''])) vs"

text \<open>A channel that is not live and has uploaded nothing.\<close>

definition idle_upstream :: upstream where
  "idle_upstream = const_upstream (Inr (Slice [Some a_channel])) None (Inr (Slice []))
     (Inl (Error ''never asked''))"

text \<open>The same channel when the request for its live page fails.\<close>

definition down_upstream :: upstream where
  "down_upstream = idle_upstream\<lparr>http_Do := (\<lambda>_. Inl (Error ''timeout''))\<rparr>"





text \<open>The ids of the records of a list, nil entries left out.\<close>

fun video_ids :: "youtube_Video ptr list \<Rightarrow> string list" where
  "video_ids [] = []"
| "video_ids (None # vs) = video_ids vs"
| "video_ids (Some v # vs) = video_Id v # video_ids vs"

section \<open>Properties of the refresh orchestrator\<close>

subsection \<open>Helper facts\<close>

lemma append_video_ids_length:
  "append_video_ids acc items = Some ids \<Longrightarrow> length acc \<le> length ids"
proof (induction items arbitrary: acc)
  case Nil
  then show ?case by simp
next
  case (Cons v vs)
  then show ?case
    by (fastforce split: option.splits)
qed

lemma refresh_live_fails:
  "refresh (live_upstream (Inl (Error ''quota''))) ''UC1'' new_State =
     (Failure (Error ''quota''), new_State\<lparr>Channel := Some a_channel\<rparr>,
      [FetchChannel ''UC1'', FetchLiveVideoId ''UC1'', FetchPlaylistItems ''UU1'',
       FetchVideos [''X'', ''A'', ''B'']])"
  by code_simp

lemma live_fetchChannel:
  "fetchChannel (live_upstream vs) ''UC1'' = Inr (Some a_channel)"
  by code_simp

lemma live_fetchLiveVideoId:
  "fetchLiveVideoId (live_upstream vs) (channel_Id a_channel) = Inr ''X''"
  by code_simp

lemma live_fetchPlaylistItems:
  "fetchPlaylistItems (live_upstream vs) ''UU1'' = Inr (Slice [an_item ''A'', an_item ''B''])"
  by code_simp

lemma live_uploads: "channel_uploads a_channel = Some ''UU1''"
  by code_simp

lemma live_video_ids:
  "append_video_ids [''X''] (elems (Slice [an_item ''A'', an_item ''B''])) =
     Some [''X'', ''A'', ''B'']"
  by code_simp

lemma live_fetchVideos: "fetchVideos (live_upstream vs) ids = vs"
  by (cases vs) (simp_all add: fetchVideos_def live_upstream_def const_upstream_def)


lemma refresh_live_first:
  "refresh (live_upstream (Inr (Slice [a_video ''X'', a_video ''A'', a_video ''B''])))
       ''UC1'' new_State =
     (Success,
      \<lparr>Channel = Some a_channel, LiveVideo = a_video ''X'',
       Videos = Slice [a_video ''A'', a_video ''B'']\<rparr>,
      [FetchChannel ''UC1'', FetchLiveVideoId ''UC1'', FetchPlaylistItems ''UU1'',
       FetchVideos [''X'', ''A'', ''B'']])"
  by code_simp

lemma refresh_live_twice:
  "refresh (live_upstream (Inr (Slice [a_video ''X'', a_video ''X''])))
       ''UC1'' new_State =
     (Success,
      \<lparr>Channel = Some a_channel, LiveVideo = a_video ''X'',
       Videos = Slice [a_video ''X'']\<rparr>,
      [FetchChannel ''UC1'', FetchLiveVideoId ''UC1'', FetchPlaylistItems ''UU1'',
       FetchVideos [''X'', ''A'', ''B'']])"
  by code_simp

text \<open>What a successful run that reached the batched video fetch leaves behind.\<close>

lemma refresh_success_videos:
  assumes "fetchChannel src channelId = Inr (Some channel)"
    and "fetchLiveVideoId src (channel_Id channel) = Inr liveVideoId"
    and "refresh src channelId state = (Success, state', calls)"
    and "FetchVideos videoIds \<in> set calls"
    and "fetchVideos src videoIds = Inr videos"
  shows "Channel state' = Some channel \<and>
         (case elems videos of
            [] \<Rightarrow> LiveVideo state' = None \<and> Videos state' = videos
          | v # vs \<Rightarrow>
              (case v of
                 None \<Rightarrow> False
               | Some v0 \<Rightarrow>
                   if video_Id v0 = liveVideoId
                   then LiveVideo state' = Some v0 \<and> Videos state' = Slice vs
                   else LiveVideo state' = None \<and> Videos state' = videos))"
proof (cases "channel_uploads channel")
  case None
  with assms(1-3) show ?thesis
    by (simp add: refresh_def)
next
  case (Some uploads)
  show ?thesis
  proof (cases "fetchPlaylistItems src uploads")
    case (Inl err)
    with assms(1-3) Some show ?thesis
      by (simp add: refresh_def)
  next
    case (Inr playlistItems)
    show ?thesis
    proof (cases "append_video_ids (if liveVideoId \<noteq> '''' then [liveVideoId] else [])
             (elems playlistItems)")
      case None
      with assms(1-3) Some Inr show ?thesis
        by (simp add: refresh_def)
    next
      case ids: (Some ids)
      show ?thesis
      proof (cases "ids = []")
        case True
        with assms(1-4) Some Inr ids show ?thesis
          by (auto simp add: refresh_def)
      next
        case False
        with assms(1-4) Some Inr ids have eq: "videoIds = ids"
          by (auto simp add: refresh_def Let_def split: sum.splits option.splits if_splits)
        with assms(5) have fv: "fetchVideos src ids = Inr videos"
          by simp
        show ?thesis
        proof (cases "elems videos")
          case Nil
          with assms(1-3) Some Inr ids False fv show ?thesis
            by (auto simp add: refresh_def len_def)
        next
          case (Cons v vs)
          with assms(1-3) Some Inr ids False fv show ?thesis
            by (cases v) (auto simp add: refresh_def len_def split: if_splits)
        qed
      qed
    qed
  qed
qed

lemma refresh_success_steps:
  assumes "refresh src channelId state = (Success, state', calls)"
  obtains channel liveVideoId where
    "fetchChannel src channelId = Inr (Some channel)"
    "fetchLiveVideoId src (channel_Id channel) = Inr liveVideoId"
proof (cases "fetchChannel src channelId")
  case (Inl err)
  with assms show ?thesis
    by (simp add: refresh_def)
next
  case (Inr c)
  show ?thesis
  proof (cases c)
    case None
    with assms Inr show ?thesis
      by (simp add: refresh_def)
  next
    case (Some channel)
    show ?thesis
    proof (cases "fetchLiveVideoId src (channel_Id channel)")
      case (Inl err)
      with assms Inr Some show ?thesis
        by (simp add: refresh_def)
    next
      case lv: (Inr liveVideoId)
      from Inr Some lv show ?thesis
        by (intro that) simp_all
    qed
  qed
qed

lemma live_video_ids_if:
  "append_video_ids (if ''X'' \<noteq> '''' then [''X''] else [])
     (elems (Slice [an_item ''A'', an_item ''B''])) = Some [''X'', ''A'', ''B'']"
  by code_simp

text \<open>The last fetch of a run that returned an error is the one that failed.\<close>

lemma refresh_failure_last_call:
  assumes "refresh src channelId state = (Failure err, state', calls)"
  shows "(case last calls of
            FetchChannel c \<Rightarrow> fetchChannel src c = Inl err \<and> state' = state
          | FetchLiveVideoId c \<Rightarrow> fetchLiveVideoId src c = Inl err \<and> state' = state
          | FetchPlaylistItems p \<Rightarrow> fetchPlaylistItems src p = Inl err \<and> state' = state
          | FetchVideos ids \<Rightarrow>
              fetchVideos src ids = Inl err \<and> LiveVideo state' = LiveVideo state \<and>
              Videos state' = Videos state \<and>
              (\<exists>channel. fetchChannel src channelId = Inr (Some channel) \<and>
                 Channel state' = Some channel))"
  using assms
  by (auto simp add: refresh_def Let_def split: sum.splits option.splits if_splits)

subsection \<open>Failed cycles\<close>

text \<open>
  Claim C1, as the code has it. When the channel fetch, the live-id resolution or the
  playlist fetch fails, \<^verbatim>\<open>refresh\<close> returns that error and the snapshot is exactly
  what it was before the call. When the batched video fetch fails, \<^verbatim>\<open>refresh\<close>
  returns that error, \<^verbatim>\<open>liveVideo\<close> and \<^verbatim>\<open>videos\<close> are what they were, and
  \<^verbatim>\<open>channel\<close> already holds the freshly fetched channel record (line 159 runs before
  the video fetch). Conversely, whenever \<^verbatim>\<open>refresh\<close> returns an error, the last fetch it
  made is the one that failed with that error, and the snapshot is as just described.
\<close>

theorem refresh_failure_snapshot:
  "(fetchChannel src channelId = Inl err \<longrightarrow>
      refresh src channelId state = (Failure err, state, [FetchChannel channelId]))
   \<and> (\<forall>channel. fetchChannel src channelId = Inr (Some channel) \<longrightarrow>
        (fetchLiveVideoId src (channel_Id channel) = Inl err \<longrightarrow>
           refresh src channelId state =
             (Failure err, state,
              [FetchChannel channelId, FetchLiveVideoId (channel_Id channel)]))
        \<and> (\<forall>liveVideoId uploads.
              fetchLiveVideoId src (channel_Id channel) = Inr liveVideoId \<and>
              channel_uploads channel = Some uploads \<longrightarrow>
              (fetchPlaylistItems src uploads = Inl err \<longrightarrow>
                 refresh src channelId state =
                   (Failure err, state,
                    [FetchChannel channelId, FetchLiveVideoId (channel_Id channel),
                     FetchPlaylistItems uploads]))
              \<and> (\<forall>items videoIds.
                    fetchPlaylistItems src uploads = Inr items \<and>
                    append_video_ids (if liveVideoId \<noteq> '''' then [liveVideoId] else [])
                      (elems items) = Some videoIds \<and>
                    videoIds \<noteq> [] \<and> fetchVideos src videoIds = Inl err \<longrightarrow>
                    refresh src channelId state =
                      (Failure err, state\<lparr>Channel := Some channel\<rparr>,
                       [FetchChannel channelId, FetchLiveVideoId (channel_Id channel),
                        FetchPlaylistItems uploads, FetchVideos videoIds]))))
   \<and> (\<forall>state' calls.
        refresh src channelId state = (Failure err, state', calls) \<longrightarrow>
        (case last calls of
           FetchChannel c \<Rightarrow> fetchChannel src c = Inl err \<and> state' = state
         | FetchLiveVideoId c \<Rightarrow> fetchLiveVideoId src c = Inl err \<and> state' = state
         | FetchPlaylistItems p \<Rightarrow> fetchPlaylistItems src p = Inl err \<and> state' = state
         | FetchVideos ids \<Rightarrow>
             fetchVideos src ids = Inl err \<and> LiveVideo state' = LiveVideo state \<and>
             Videos state' = Videos state \<and>
             (\<exists>channel. fetchChannel src channelId = Inr (Some channel) \<and>
                Channel state' = Some channel)))"
proof (intro conjI allI impI)
  assume "fetchChannel src channelId = Inl err"
  then show "refresh src channelId state = (Failure err, state, [FetchChannel channelId])"
    by (simp add: refresh_def)
next
  fix channel
  assume "fetchChannel src channelId = Inr (Some channel)"
    and "fetchLiveVideoId src (channel_Id channel) = Inl err"
  then show "refresh src channelId state =
      (Failure err, state, [FetchChannel channelId, FetchLiveVideoId (channel_Id channel)])"
    by (simp add: refresh_def)
next
  fix channel liveVideoId uploads
  assume "fetchChannel src channelId = Inr (Some channel)"
    and "fetchLiveVideoId src (channel_Id channel) = Inr liveVideoId \<and>
         channel_uploads channel = Some uploads"
    and "fetchPlaylistItems src uploads = Inl err"
  then show "refresh src channelId state =
      (Failure err, state,
       [FetchChannel channelId, FetchLiveVideoId (channel_Id channel),
        FetchPlaylistItems uploads])"
    by (simp add: refresh_def)
next
  fix channel liveVideoId uploads items videoIds
  assume "fetchChannel src channelId = Inr (Some channel)"
    and "fetchLiveVideoId src (channel_Id channel) = Inr liveVideoId \<and>
         channel_uploads channel = Some uploads"
    and "fetchPlaylistItems src uploads = Inr items \<and>
         append_video_ids (if liveVideoId \<noteq> '''' then [liveVideoId] else [])
           (elems items) = Some videoIds \<and>
         videoIds \<noteq> [] \<and> fetchVideos src videoIds = Inl err"
  then show "refresh src channelId state =
      (Failure err, state\<lparr>Channel := Some channel\<rparr>,
       [FetchChannel channelId, FetchLiveVideoId (channel_Id channel),
        FetchPlaylistItems uploads, FetchVideos videoIds])"
    by (simp add: refresh_def)
next
  fix state' calls
  assume "refresh src channelId state = (Failure err, state', calls)"
  then show "(case last calls of
           FetchChannel c \<Rightarrow> fetchChannel src c = Inl err \<and> state' = state
         | FetchLiveVideoId c \<Rightarrow> fetchLiveVideoId src c = Inl err \<and> state' = state
         | FetchPlaylistItems p \<Rightarrow> fetchPlaylistItems src p = Inl err \<and> state' = state
         | FetchVideos ids \<Rightarrow>
             fetchVideos src ids = Inl err \<and> LiveVideo state' = LiveVideo state \<and>
             Videos state' = Videos state \<and>
             (\<exists>channel. fetchChannel src channelId = Inr (Some channel) \<and>
                Channel state' = Some channel))"
    by (rule refresh_failure_last_call)
qed

theorem refresh_failure_snapshot_witness:
  "fetchVideos (live_upstream (Inl (Error ''quota''))) [''X'', ''A'', ''B''] =
       Inl (Error ''quota'')
   \<and> refresh (live_upstream (Inl (Error ''quota''))) ''UC1'' new_State =
     (Failure (Error ''quota''), new_State\<lparr>Channel := Some a_channel\<rparr>,
      [FetchChannel ''UC1'', FetchLiveVideoId ''UC1'', FetchPlaylistItems ''UU1'',
       FetchVideos [''X'', ''A'', ''B'']])
   \<and> LiveVideo (new_State\<lparr>Channel := Some a_channel\<rparr>) = LiveVideo new_State
   \<and> Videos (new_State\<lparr>Channel := Some a_channel\<rparr>) = Videos new_State
   \<and> refresh (const_upstream (Inl (Error ''denied'')) None (Inr NilSlice) (Inr NilSlice))
       ''UC1'' new_State = (Failure (Error ''denied''), new_State, [FetchChannel ''UC1''])"
proof -
  note t = refresh_failure_snapshot [of "live_upstream (Inl (Error ''quota''))" "''UC1''"
      "Error ''quota''" new_State]
  have fv: "fetchVideos (live_upstream (Inl (Error ''quota''))) [''X'', ''A'', ''B''] =
       Inl (Error ''quota'')"
    by (rule live_fetchVideos)
  have ne: "[''X'', ''A'', ''B''] \<noteq> []"
    by simp
  have run: "refresh (live_upstream (Inl (Error ''quota''))) ''UC1'' new_State =
     (Failure (Error ''quota''), new_State\<lparr>Channel := Some a_channel\<rparr>,
      [FetchChannel ''UC1'', FetchLiveVideoId ''UC1'', FetchPlaylistItems ''UU1'',
       FetchVideos [''X'', ''A'', ''B'']])"
    using t [THEN conjunct2, THEN conjunct1, rule_format, OF live_fetchChannel,
        THEN conjunct2, rule_format, OF conjI [OF live_fetchLiveVideoId live_uploads],
        THEN conjunct2, rule_format,
        OF conjI [OF live_fetchPlaylistItems conjI [OF live_video_ids_if conjI [OF ne fv]]]]
    by (simp add: a_channel_def)
  have fc: "fetchChannel (const_upstream (Inl (Error ''denied'')) None (Inr NilSlice) (Inr NilSlice))
      ''UC1'' = Inl (Error ''denied'')"
    by code_simp
  note first = refresh_failure_snapshot [of
      "const_upstream (Inl (Error ''denied'')) None (Inr NilSlice) (Inr NilSlice)" "''UC1''"
      "Error ''denied''" new_State, THEN conjunct1, rule_format, OF fc]
  from fv run first show ?thesis
    by simp
qed

text \<open>
  Claim C1 as stated fails: with an empty snapshot, a channel that is found and a
  batched video fetch that fails, \<^verbatim>\<open>refresh\<close> returns the error and \<^verbatim>\<open>channel\<close> is no
  longer null.
\<close>

theorem refresh_failure_snapshot_counterexample:
  "\<not> (\<forall>src channelId state err state' calls.
        refresh src channelId state = (Failure err, state', calls) \<longrightarrow>
        Channel state' = Channel state \<and> LiveVideo state' = LiveVideo state \<and>
        Videos state' = Videos state)"
proof
  assume claim: "\<forall>src channelId state err state' calls.
        refresh src channelId state = (Failure err, state', calls) \<longrightarrow>
        Channel state' = Channel state \<and> LiveVideo state' = LiveVideo state \<and>
        Videos state' = Videos state"
  from claim [rule_format, OF refresh_live_fails]
  have "Channel (new_State\<lparr>Channel := Some a_channel\<rparr>) = Channel new_State"
    by (rule conjunct1)
  then show False
    by (simp add: new_State_def)
qed

subsection \<open>An empty answer of the batched video fetch\<close>

text \<open>
  Claim C9. When a non-empty live id was resolved and the batched video fetch succeeds
  with an empty list, \<^verbatim>\<open>refresh\<close> succeeds: \<^verbatim>\<open>liveVideo\<close> is null, \<^verbatim>\<open>videos\<close> is the
  list that was returned and \<^verbatim>\<open>channel\<close> is the fetched record. The guard
  \<^verbatim>\<open>len(videos) > 0\<close> keeps \<^verbatim>\<open>videos[0]\<close> from being read, so there is no panic.
\<close>

theorem refresh_empty_batch:
  assumes "fetchChannel src channelId = Inr (Some channel)"
    and "fetchLiveVideoId src (channel_Id channel) = Inr liveVideoId"
    and "liveVideoId \<noteq> ''''"
    and "channel_uploads channel = Some uploads"
    and "fetchPlaylistItems src uploads = Inr items"
    and "append_video_ids [liveVideoId] (elems items) = Some videoIds"
    and "fetchVideos src videoIds = Inr videos"
    and "len videos = 0"
  shows "refresh src channelId state =
           (Success, \<lparr>Channel = Some channel, LiveVideo = None, Videos = videos\<rparr>,
            [FetchChannel channelId, FetchLiveVideoId (channel_Id channel),
             FetchPlaylistItems uploads, FetchVideos videoIds])"
proof -
  from append_video_ids_length [OF assms(6)] have "videoIds \<noteq> []"
    by auto
  with assms show ?thesis
    by (simp add: refresh_def len_def)
qed

theorem refresh_empty_batch_witness:
  "refresh (live_upstream (Inr NilSlice)) ''UC1'' new_State =
     (Success, \<lparr>Channel = Some a_channel, LiveVideo = None, Videos = NilSlice\<rparr>,
      [FetchChannel ''UC1'', FetchLiveVideoId ''UC1'', FetchPlaylistItems ''UU1'',
       FetchVideos [''X'', ''A'', ''B'']])
   \<and> refresh (live_upstream (Inr (Slice []))) ''UC1'' new_State =
     (Success, \<lparr>Channel = Some a_channel, LiveVideo = None, Videos = Slice []\<rparr>,
      [FetchChannel ''UC1'', FetchLiveVideoId ''UC1'', FetchPlaylistItems ''UU1'',
       FetchVideos [''X'', ''A'', ''B'']])"
proof -
  have ne: "''X'' \<noteq> ''''" by simp
  have l1: "len (NilSlice :: youtube_Video ptr slice) = 0" by (simp add: len_def)
  have l2: "len (Slice [] :: youtube_Video ptr slice) = 0" by (simp add: len_def)
  show ?thesis
    using refresh_empty_batch [OF live_fetchChannel live_fetchLiveVideoId ne live_uploads
        live_fetchPlaylistItems live_video_ids live_fetchVideos l1, of new_State]
      refresh_empty_batch [OF live_fetchChannel live_fetchLiveVideoId ne live_uploads
        live_fetchPlaylistItems live_video_ids live_fetchVideos l2, of new_State]
    by (simp add: a_channel_def)
qed

subsection \<open>The positional choice of the live video\<close>



subsection \<open>The live video among the videos\<close>

text \<open>
  Claim C3, as the code has it. After a successful \<^verbatim>\<open>refresh\<close> in which
  \<^verbatim>\<open>liveVideo\<close> is non-null, no record of \<^verbatim>\<open>videos\<close> has the id of \<^verbatim>\<open>liveVideo\<close>,
  provided the records returned by the batched video fetch have pairwise distinct ids.
  (Only the first returned record is compared with the live id and removed.)
\<close>

theorem refresh_live_not_in_videos:
  assumes "refresh src channelId state = (Success, state', calls)"
    and "LiveVideo state' = Some liveVideo"
    and "FetchVideos videoIds \<in> set calls"
    and "fetchVideos src videoIds = Inr videos"
    and "distinct (video_ids (elems videos))"
  shows "video_Id liveVideo \<notin> set (video_ids (elems (Videos state')))"
proof -
  from assms(1) obtain channel liveVideoId where
    ch: "fetchChannel src channelId = Inr (Some channel)" and
    lv: "fetchLiveVideoId src (channel_Id channel) = Inr liveVideoId"
    by (rule refresh_success_steps)
  note shape = refresh_success_videos [OF ch lv assms(1) assms(3) assms(4)]
  have "elems videos = Some liveVideo # elems (Videos state')"
  proof (cases "elems videos")
    case Nil
    with shape assms(2) show ?thesis
      by simp
  next
    case (Cons v vs)
    with shape assms(2) show ?thesis
      by (cases v) (auto split: if_splits)
  qed
  with assms(5) show ?thesis
    by simp
qed

theorem refresh_live_not_in_videos_witness:
  "distinct (video_ids (elems (Slice [a_video ''X'', a_video ''A'', a_video ''B''])))
   \<and> LiveVideo (fst (snd (refresh
        (live_upstream (Inr (Slice [a_video ''X'', a_video ''A'', a_video ''B''])))
        ''UC1'' new_State))) = a_video ''X''
   \<and> ''X'' \<notin> set (video_ids (elems (Videos (fst (snd (refresh
        (live_upstream (Inr (Slice [a_video ''X'', a_video ''A'', a_video ''B''])))
        ''UC1'' new_State))))))"
proof -
  have mem: "FetchVideos [''X'', ''A'', ''B''] \<in>
      set [FetchChannel ''UC1'', FetchLiveVideoId ''UC1'', FetchPlaylistItems ''UU1'',
       FetchVideos [''X'', ''A'', ''B'']]"
    by simp
  have lv: "LiveVideo \<lparr>Channel = Some a_channel, LiveVideo = a_video ''X'',
       Videos = Slice [a_video ''A'', a_video ''B'']\<rparr> = Some \<lparr>video_Id = ''X''\<rparr>"
    by (simp add: a_video_def)
  have d: "distinct (video_ids (elems (Slice [a_video ''X'', a_video ''A'', a_video ''B''])))"
    by (simp add: a_video_def)
  have "video_Id \<lparr>video_Id = ''X''\<rparr> \<notin> set (video_ids (elems (Videos
          \<lparr>Channel = Some a_channel, LiveVideo = a_video ''X'',
           Videos = Slice [a_video ''A'', a_video ''B'']\<rparr>)))"
    by (rule refresh_live_not_in_videos [OF refresh_live_first lv mem live_fetchVideos d])
  with d show ?thesis
    unfolding refresh_live_first by simp
qed

text \<open>
  Claim C3 as stated fails: when the batched video fetch returns the live video twice,
  the first copy becomes \<^verbatim>\<open>liveVideo\<close> and the second stays in \<^verbatim>\<open>videos\<close>.
\<close>

theorem refresh_live_not_in_videos_counterexample:
  "\<not> (\<forall>src channelId state state' calls liveVideo v.
        refresh src channelId state = (Success, state', calls) \<and>
        LiveVideo state' = Some liveVideo \<and> Some v \<in> set (elems (Videos state')) \<longrightarrow>
        video_Id v \<noteq> video_Id liveVideo)"
proof
  assume claim: "\<forall>src channelId state state' calls liveVideo v.
        refresh src channelId state = (Success, state', calls) \<and>
        LiveVideo state' = Some liveVideo \<and> Some v \<in> set (elems (Videos state')) \<longrightarrow>
        video_Id v \<noteq> video_Id liveVideo"
  have lv: "LiveVideo \<lparr>Channel = Some a_channel, LiveVideo = a_video ''X'',
       Videos = Slice [a_video ''X'']\<rparr> = Some \<lparr>video_Id = ''X''\<rparr>"
    by (simp add: a_video_def)
  have mem: "Some \<lparr>video_Id = ''X''\<rparr> \<in> set (elems (Videos \<lparr>Channel = Some a_channel,
         LiveVideo = a_video ''X'', Videos = Slice [a_video ''X'']\<rparr>))"
    by (simp add: a_video_def)
  from claim [rule_format, OF conjI [OF refresh_live_twice conjI [OF lv mem]]]
  show False
    by simp
qed

subsection \<open>Nothing to fetch\<close>

text \<open>
  Claim C5. When the live-video resolver returns the empty string and the uploads
  playlist returns zero items, \<^verbatim>\<open>refresh\<close> succeeds, \<^verbatim>\<open>channel\<close> is the fetched
  record, \<^verbatim>\<open>liveVideo\<close> is null, \<^verbatim>\<open>videos\<close> is an empty (non-nil) sequence, and the
  fetches made are the channel fetch, the live-id resolution and the playlist fetch: the
  batched video fetch is not called.
\<close>

theorem refresh_nothing_to_fetch:
  assumes "fetchChannel src channelId = Inr (Some channel)"
    and "fetchLiveVideoId src (channel_Id channel) = Inr ''''"
    and "channel_uploads channel = Some uploads"
    and "fetchPlaylistItems src uploads = Inr items"
    and "len items = 0"
  shows "refresh src channelId state =
           (Success, \<lparr>Channel = Some channel, LiveVideo = None, Videos = Slice []\<rparr>,
            [FetchChannel channelId, FetchLiveVideoId (channel_Id channel),
             FetchPlaylistItems uploads])
         \<and> (\<forall>ids. FetchVideos ids \<notin> set (snd (snd (refresh src channelId state))))"
  using assms by (simp add: refresh_def len_def)

theorem refresh_nothing_to_fetch_witness:
  "refresh idle_upstream ''UC1'' new_State =
     (Success, \<lparr>Channel = Some a_channel, LiveVideo = None, Videos = Slice []\<rparr>,
      [FetchChannel ''UC1'', FetchLiveVideoId ''UC1'', FetchPlaylistItems ''UU1''])"
proof -
  have ch: "fetchChannel idle_upstream ''UC1'' = Inr (Some a_channel)" by code_simp
  have lv: "fetchLiveVideoId idle_upstream (channel_Id a_channel) = Inr ''''" by code_simp
  have pl: "fetchPlaylistItems idle_upstream ''UU1'' = Inr (Slice [])" by code_simp
  have l: "len (Slice [] :: youtube_PlaylistItem ptr slice) = 0" by (simp add: len_def)
  show ?thesis
    using refresh_nothing_to_fetch [OF ch lv live_uploads pl l, of new_State]
    by (simp add: a_channel_def)
qed

subsection \<open>A channel that is not found\<close>

text \<open>
  Claim C2 (the code departs from it). When the channel lookup succeeds with zero items,
  \<^verbatim>\<open>fetchChannel\<close> returns a nil channel and no error; \<^verbatim>\<open>refresh\<close> then reads
  \<^verbatim>\<open>channel.Id\<close> of the nil channel and panics: it returns no error at all. This holds
  for every upstream whose channel lookup answers with an empty list, for every channel
  id and every snapshot; the snapshot is untouched and only the channel fetch was made.
\<close>

theorem refresh_no_items_panics:
  "refresh (src\<lparr>Channels_List := (\<lambda>_. Inr (Slice []))\<rparr>) channelId state =
     (Panic, state, [FetchChannel channelId])
   \<and> refresh (src\<lparr>Channels_List := (\<lambda>_. Inr NilSlice)\<rparr>) channelId state =
     (Panic, state, [FetchChannel channelId])"
  by (simp add: refresh_def fetchChannel_def len_def)

subsection \<open>Idempotence\<close>

text \<open>
  Claim C6. Running \<^verbatim>\<open>refresh\<close> a second time against the same upstream answers, on
  the snapshot the first run left, gives the same outcome, the same snapshot and the
  same fetches as the first run: in particular the snapshot after the second run is the
  snapshot after the first.
\<close>

theorem refresh_idempotent:
  "refresh src channelId (fst (snd (refresh src channelId state))) =
     refresh src channelId state"
  by (simp add: refresh_def Let_def split: sum.split option.split)

section \<open>Properties of the live-video resolver\<close>

subsection \<open>Helper facts on the pattern and the attribute loop\<close>

lemma match_fold_to_lower: "match_fold (to_lower c) (c # cs) = Some cs"
proof (cases "is_upper c")
  case True
  then have "to_upper (to_lower c) = c"
    by (simp add: to_lower_def to_upper_def is_upper_def is_lower_def)
  then show ?thesis
    by simp
next
  case False
  then have "to_lower (to_lower c) = c"
    by (simp add: to_lower_def)
  then show ?thesis
    by simp
qed

lemma match_literal_to_lower: "match_literal (map to_lower P) (P @ R) = Some R"
  by (induction P) (simp_all add: match_fold_to_lower del: match_fold.simps)

lemma match_here_literal:
  assumes "map to_lower P = re_literal"
    and "takeWhile (\<lambda>c. c \<noteq> line_feed) S \<noteq> []"
  shows "match_here (P @ S) =
           [P @ takeWhile (\<lambda>c. c \<noteq> line_feed) S, takeWhile (\<lambda>c. c \<noteq> line_feed) S]"
proof -
  have "match_literal re_literal (P @ S) = Some S"
    using match_literal_to_lower [of P S] assms(1) by simp
  with assms(2) show ?thesis
    by (simp add: match_here_def Let_def)
qed

lemma FindStringSubmatch_literal:
  assumes "map to_lower P = re_literal"
    and "takeWhile (\<lambda>c. c \<noteq> line_feed) S \<noteq> []"
  shows "FindStringSubmatch (P @ S) =
           [P @ takeWhile (\<lambda>c. c \<noteq> line_feed) S, takeWhile (\<lambda>c. c \<noteq> line_feed) S]"
proof -
  from assms(1) have "P \<noteq> []"
    by (auto simp add: re_literal_def)
  then obtain c cs where "P @ S = c # cs"
    by (cases P) auto
  with match_here_literal [OF assms] show ?thesis
    by simp
qed

lemma scan_attrs_skip:
  "\<forall>b\<in>set pre. Key b \<noteq> ''href'' \<Longrightarrow> scan_attrs (pre @ rest) = scan_attrs rest"
  by (induction pre) simp_all

lemma scan_attrs_None:
  "\<forall>a\<in>set as. Key a = ''href'' \<longrightarrow> FindStringSubmatch (Val a) = [] \<Longrightarrow> scan_attrs as = None"
  by (induction as) simp_all

lemma const_upstream_page:
  "http_NewRequest (const_upstream ch node pl vs) ''GET'' (live_url channelId) =
     Inr \<lparr>req_Method = ''GET'', req_URL = live_url channelId, req_Cookies = []\<rparr>"
  "http_Do (const_upstream ch node pl vs) req = Inr []"
  "html_Parse (const_upstream ch node pl vs) body = Inr (Document body)"
  "cascadia_Parse (const_upstream ch node pl vs) text = Inr (Selector text)"
  "cascadia_Query (const_upstream ch node pl vs) doc sel = node"
  by (simp_all add: const_upstream_def)

subsection \<open>Empty answers and errors of the resolver\<close>

text \<open>
  Claim C8. When the request is built, the page is fetched, the body parses and the
  selector parses, the resolver returns the empty string and no error both when no
  element matches \<^verbatim>\<open>link[rel='canonical']\<close> and when no \<^verbatim>\<open>href\<close> of the matched
  element matches the pattern (that is, \<^verbatim>\<open>re.FindStringSubmatch\<close> finds nothing in it).
  And when the resolver returns an error, that error is the one of the request
  construction, of the HTTP request, of the HTML parse or of the selector parse.
\<close>

theorem fetchLiveVideoId_empty_or_error:
  "(\<forall>req0 body doc sel.
      http_NewRequest up ''GET'' (live_url channelId) = Inr req0 \<and>
      http_Do up (AddCookie consent_cookie req0) = Inr body \<and>
      html_Parse up body = Inr doc \<and>
      cascadia_Parse up ''link[rel='canonical']'' = Inr sel \<and>
      (case cascadia_Query up doc sel of
         None \<Rightarrow> True
       | Some node \<Rightarrow>
           \<forall>a\<in>set (Attr node). Key a = ''href'' \<longrightarrow> FindStringSubmatch (Val a) = [])
      \<longrightarrow> fetchLiveVideoId up channelId = Inr '''')
   \<and> (\<forall>err. fetchLiveVideoId up channelId = Inl err \<longrightarrow>
        http_NewRequest up ''GET'' (live_url channelId) = Inl err \<or>
        (\<exists>req0. http_NewRequest up ''GET'' (live_url channelId) = Inr req0 \<and>
           (http_Do up (AddCookie consent_cookie req0) = Inl err \<or>
            (\<exists>body. http_Do up (AddCookie consent_cookie req0) = Inr body \<and>
               (html_Parse up body = Inl err \<or>
                (\<exists>doc. html_Parse up body = Inr doc \<and>
                   cascadia_Parse up ''link[rel='canonical']'' = Inl err))))))"
proof (intro conjI allI impI)
  fix req0 body doc sel
  assume h: "http_NewRequest up ''GET'' (live_url channelId) = Inr req0 \<and>
      http_Do up (AddCookie consent_cookie req0) = Inr body \<and>
      html_Parse up body = Inr doc \<and>
      cascadia_Parse up ''link[rel='canonical']'' = Inr sel \<and>
      (case cascadia_Query up doc sel of
         None \<Rightarrow> True
       | Some node \<Rightarrow>
           \<forall>a\<in>set (Attr node). Key a = ''href'' \<longrightarrow> FindStringSubmatch (Val a) = [])"
  show "fetchLiveVideoId up channelId = Inr ''''"
  proof (cases "cascadia_Query up doc sel")
    case None
    with h show ?thesis
      by (simp add: fetchLiveVideoId_def)
  next
    case (Some node)
    with h have "scan_attrs (Attr node) = None"
      by (intro scan_attrs_None) simp
    with h Some show ?thesis
      by (simp add: fetchLiveVideoId_def)
  qed
next
  fix err
  assume "fetchLiveVideoId up channelId = Inl err"
  then show "http_NewRequest up ''GET'' (live_url channelId) = Inl err \<or>
        (\<exists>req0. http_NewRequest up ''GET'' (live_url channelId) = Inr req0 \<and>
           (http_Do up (AddCookie consent_cookie req0) = Inl err \<or>
            (\<exists>body. http_Do up (AddCookie consent_cookie req0) = Inr body \<and>
               (html_Parse up body = Inl err \<or>
                (\<exists>doc. html_Parse up body = Inr doc \<and>
                   cascadia_Parse up ''link[rel='canonical']'' = Inl err)))))"
    by (simp add: fetchLiveVideoId_def Let_def split: sum.splits option.splits)
qed

theorem fetchLiveVideoId_empty_or_error_witness:
  "fetchLiveVideoId idle_upstream ''UC1'' = Inr []
   \<and> fetchLiveVideoId
       (const_upstream (Inr NilSlice) (canonical_link ''https://www.youtube.com/channel/UC1'')
          (Inr NilSlice) (Inr NilSlice)) ''UC1'' = Inr []
   \<and> fetchLiveVideoId down_upstream ''UC1'' = Inl (Error ''timeout'')
   \<and> http_Do down_upstream
       (AddCookie consent_cookie
          \<lparr>req_Method = ''GET'', req_URL = live_url ''UC1'', req_Cookies = []\<rparr>) =
       Inl (Error ''timeout'')"
proof -
  have nomatch: "FindStringSubmatch ''https://www.youtube.com/channel/UC1'' = []"
    by code_simp
  have a: "fetchLiveVideoId idle_upstream ''UC1'' = Inr []"
    using fetchLiveVideoId_empty_or_error [of idle_upstream "''UC1''", THEN conjunct1, rule_format,
        of "\<lparr>req_Method = ''GET'', req_URL = live_url ''UC1'', req_Cookies = []\<rparr>" "[]"
           "Document []" "Selector ''link[rel='canonical']''"]
    by (simp add: idle_upstream_def const_upstream_page)
  have b: "fetchLiveVideoId
       (const_upstream (Inr NilSlice) (canonical_link ''https://www.youtube.com/channel/UC1'')
          (Inr NilSlice) (Inr NilSlice)) ''UC1'' = Inr []"
    using fetchLiveVideoId_empty_or_error [of
        "const_upstream (Inr NilSlice) (canonical_link ''https://www.youtube.com/channel/UC1'')
          (Inr NilSlice) (Inr NilSlice)" "''UC1''", THEN conjunct1, rule_format,
        of "\<lparr>req_Method = ''GET'', req_URL = live_url ''UC1'', req_Cookies = []\<rparr>" "[]"
           "Document []" "Selector ''link[rel='canonical']''"] nomatch
    by (simp add: const_upstream_page canonical_link_def)
  have run: "fetchLiveVideoId down_upstream ''UC1'' = Inl (Error ''timeout'')"
    by code_simp
  have req: "http_NewRequest down_upstream ''GET'' (live_url ''UC1'') =
      Inr \<lparr>req_Method = ''GET'', req_URL = live_url ''UC1'', req_Cookies = []\<rparr>"
    by (simp add: down_upstream_def idle_upstream_def const_upstream_def)
  have c: "http_Do down_upstream
       (AddCookie consent_cookie
          \<lparr>req_Method = ''GET'', req_URL = live_url ''UC1'', req_Cookies = []\<rparr>) =
       Inl (Error ''timeout'')"
    using fetchLiveVideoId_empty_or_error [of down_upstream "''UC1''", THEN conjunct2,
        rule_format, OF run] req
    by (simp add: down_upstream_def)
  from a b run c show ?thesis
    by simp
qed

subsection \<open>What the resolver captures\<close>

text \<open>
  Claim C10, as the code has it. When the first \<^verbatim>\<open>href\<close> attribute of the canonical
  link is \<^verbatim>\<open>https://www.youtube.com/watch?v=\<close> (in any mix of upper and lower case)
  followed by a text S that does not begin with a line feed, the resolver returns S up
  to, and not including, its first line feed. When S holds no line feed it returns all
  of S, query parameters after \<^verbatim>\<open>&\<close> included: the group is greedy and is not
  restricted to a well-formed video id, but a dot of the pattern does not match a line
  feed.
\<close>

theorem fetchLiveVideoId_capture:
  assumes "http_NewRequest up ''GET'' (live_url channelId) = Inr req0"
    and "http_Do up (AddCookie consent_cookie req0) = Inr body"
    and "html_Parse up body = Inr doc"
    and "cascadia_Parse up ''link[rel='canonical']'' = Inr sel"
    and "cascadia_Query up doc sel = Some node"
    and "Attr node = pre @ a # post"
    and "\<forall>b\<in>set pre. Key b \<noteq> ''href''"
    and "Key a = ''href''"
    and "Val a = P @ S"
    and "map to_lower P = re_literal"
    and "takeWhile (\<lambda>c. c \<noteq> line_feed) S \<noteq> []"
  shows "fetchLiveVideoId up channelId = Inr (takeWhile (\<lambda>c. c \<noteq> line_feed) S)
         \<and> (line_feed \<notin> set S \<longrightarrow> fetchLiveVideoId up channelId = Inr S)"
proof -
  have "scan_attrs (Attr node) = Some (takeWhile (\<lambda>c. c \<noteq> line_feed) S)"
    using scan_attrs_skip [OF assms(7), of "a # post"]
      FindStringSubmatch_literal [OF assms(10) assms(11)] assms(6,8,9)
    by simp
  with assms(1-5) have "fetchLiveVideoId up channelId = Inr (takeWhile (\<lambda>c. c \<noteq> line_feed) S)"
    by (simp add: fetchLiveVideoId_def)
  moreover have "line_feed \<notin> set S \<longrightarrow> takeWhile (\<lambda>c. c \<noteq> line_feed) S = S"
    by (auto simp add: takeWhile_eq_all_conv)
  ultimately show ?thesis
    by simp
qed

theorem fetchLiveVideoId_capture_witness:
  "fetchLiveVideoId
     (const_upstream (Inr NilSlice)
        (canonical_link (''HTTPS://WWW.YouTube.com/Watch?V='' @ ''dQw4&t=1''))
        (Inr NilSlice) (Inr NilSlice)) ''UC1'' = Inr ''dQw4&t=1''
   \<and> fetchLiveVideoId
     (const_upstream (Inr NilSlice)
        (canonical_link (''https://www.youtube.com/watch?v='' @ ''abc'' @ [line_feed] @ ''def''))
        (Inr NilSlice) (Inr NilSlice)) ''UC1'' = Inr ''abc''"
proof -
  have attr: "Attr \<lparr>Attr = [\<lparr>Key = ''rel'', Val = ''canonical''\<rparr>, \<lparr>Key = ''href'', Val = url\<rparr>]\<rparr> =
      [\<lparr>Key = ''rel'', Val = ''canonical''\<rparr>] @ \<lparr>Key = ''href'', Val = url\<rparr> # []" for url
    by simp
  have pre: "\<forall>b\<in>set [\<lparr>Key = ''rel'', Val = ''canonical''\<rparr>]. Key b \<noteq> ''href''"
    by simp
  have key: "Key \<lparr>Key = ''href'', Val = url\<rparr> = ''href''" for url
    by simp
  have val: "Val \<lparr>Key = ''href'', Val = url\<rparr> = url" for url
    by simp
  have q: "cascadia_Query (const_upstream ch (canonical_link url) pl vs) doc sel =
      Some \<lparr>Attr = [\<lparr>Key = ''rel'', Val = ''canonical''\<rparr>, \<lparr>Key = ''href'', Val = url\<rparr>]\<rparr>"
    for ch url pl vs doc sel
    by (simp add: const_upstream_def canonical_link_def)
  have p1: "map to_lower ''HTTPS://WWW.YouTube.com/Watch?V='' = re_literal"
    by code_simp
  have p2: "map to_lower ''https://www.youtube.com/watch?v='' = re_literal"
    by code_simp
  have s1: "takeWhile (\<lambda>c. c \<noteq> line_feed) ''dQw4&t=1'' \<noteq> []"
    by (simp add: line_feed_def)
  have s2: "takeWhile (\<lambda>c. c \<noteq> line_feed) (''abc'' @ [line_feed] @ ''def'') \<noteq> []"
    by (simp add: line_feed_def)
  have n1: "line_feed \<notin> set ''dQw4&t=1''"
    by (simp add: line_feed_def)
  have t2: "takeWhile (\<lambda>c. c \<noteq> line_feed) (''abc'' @ [line_feed] @ ''def'') = ''abc''"
    by (simp add: line_feed_def)
  have w1: "fetchLiveVideoId
     (const_upstream (Inr NilSlice)
        (canonical_link (''HTTPS://WWW.YouTube.com/Watch?V='' @ ''dQw4&t=1''))
        (Inr NilSlice) (Inr NilSlice)) ''UC1'' = Inr ''dQw4&t=1''"
    by (rule fetchLiveVideoId_capture [OF const_upstream_page(1-4) q attr pre key val p1 s1,
          THEN conjunct2, rule_format, OF n1])
  have "fetchLiveVideoId
     (const_upstream (Inr NilSlice)
        (canonical_link (''https://www.youtube.com/watch?v='' @ ''abc'' @ [line_feed] @ ''def''))
        (Inr NilSlice) (Inr NilSlice)) ''UC1'' =
      Inr (takeWhile (\<lambda>c. c \<noteq> line_feed) (''abc'' @ [line_feed] @ ''def''))"
    by (rule fetchLiveVideoId_capture [OF const_upstream_page(1-4) q attr pre key val p2 s2,
          THEN conjunct1])
  then have w2: "fetchLiveVideoId
     (const_upstream (Inr NilSlice)
        (canonical_link (''https://www.youtube.com/watch?v='' @ ''abc'' @ [line_feed] @ ''def''))
        (Inr NilSlice) (Inr NilSlice)) ''UC1'' = Inr ''abc''"
    unfolding t2 .
  from w1 w2 show ?thesis
    by (rule conjI)
qed

text \<open>
  Claim C10 as stated fails: for S equal to \<^verbatim>\<open>abc\<close>, a line feed and \<^verbatim>\<open>def\<close>, the
  resolver returns \<^verbatim>\<open>abc\<close>, not S.
\<close>

theorem fetchLiveVideoId_capture_counterexample:
  "\<not> (\<forall>S. S \<noteq> [] \<longrightarrow>
        fetchLiveVideoId
          (const_upstream (Inr NilSlice)
             (canonical_link (''https://www.youtube.com/watch?v='' @ S))
             (Inr NilSlice) (Inr NilSlice)) ''UC1'' = Inr S)"
proof
  assume claim: "\<forall>S. S \<noteq> [] \<longrightarrow>
        fetchLiveVideoId
          (const_upstream (Inr NilSlice)
             (canonical_link (''https://www.youtube.com/watch?v='' @ S))
             (Inr NilSlice) (Inr NilSlice)) ''UC1'' = Inr S"
  have run: "fetchLiveVideoId
          (const_upstream (Inr NilSlice)
             (canonical_link (''https://www.youtube.com/watch?v='' @ (''abc'' @ [CHR 0x0A] @ ''def'')))
             (Inr NilSlice) (Inr NilSlice)) ''UC1'' = Inr ''abc''"
    by code_simp
  have "''abc'' @ [CHR 0x0A] @ ''def'' \<noteq> []"
    by simp
  from claim [rule_format, OF this] run show False
    by simp
qed

section \<open>Properties of the HTTP snapshot server\<close>

subsection \<open>Helper facts on the encoding\<close>






subsection \<open>The response\<close>




end
